theory Spec2Isabelle
  imports Main
begin

section \<open>Python library functions used by verify\_tools.py\<close>

text \<open>
  Python strings are sequences of code points. They are modelled as \<open>string\<close>, one
  \<open>char\<close> per code point, which covers the code points below 256. The functions of this
  section follow the CPython semantics of the library calls that the script makes.
\<close>

definition isspace :: "char \<Rightarrow> bool" where
  \<comment> \<open>\<open>str.isspace\<close> on one character: the whitespace code points below 256.\<close>
  "isspace c \<longleftrightarrow> c \<in> {CHR 0x09, CHR 0x0A, CHR 0x0B, CHR 0x0C, CHR 0x0D,
                        CHR 0x1C, CHR 0x1D, CHR 0x1E, CHR 0x1F, CHR 0x20, CHR 0x85, CHR 0xA0}"

definition lstrip :: "string \<Rightarrow> string" where
  "lstrip s = dropWhile isspace s"

definition rstrip :: "string \<Rightarrow> string" where
  "rstrip s = rev (dropWhile isspace (rev s))"

definition strip :: "string \<Rightarrow> string" where
  \<comment> \<open>\<open>s.strip()\<close>\<close>
  "strip s = rstrip (lstrip s)"

definition split1 :: "char \<Rightarrow> string \<Rightarrow> string list" where
  \<comment> \<open>\<open>s.split(sep, 1)\<close> for a one-character separator: at most one split, at the
      first occurrence.\<close>
  "split1 sep s =
     (if sep \<in> set s
      then [takeWhile (\<lambda>c. c \<noteq> sep) s, tl (dropWhile (\<lambda>c. c \<noteq> sep) s)]
      else [s])"

fun startswith :: "string \<Rightarrow> string \<Rightarrow> bool" where
  \<comment> \<open>\<open>s.startswith(p)\<close>\<close>
  "startswith s [] = True"
| "startswith [] (p # ps) = False"
| "startswith (c # cs) (p # ps) = (c = p \<and> startswith cs ps)"

definition endswith :: "string \<Rightarrow> string \<Rightarrow> bool" where
  "endswith s p = startswith (rev s) (rev p)"

fun join :: "string \<Rightarrow> string list \<Rightarrow> string" where
  \<comment> \<open>\<open>os.path.join(a, *p)\<close> of posixpath: an absolute component discards what precedes it.\<close>
  "join path [] = path"
| "join path (b # bs) =
     (if startswith b ''/'' \<or> path = [] then join b bs
      else if endswith path ''/'' then join (path @ b) bs
      else join (path @ ''/'' @ b) bs)"

definition ljust :: "nat \<Rightarrow> string \<Rightarrow> string" where
  \<comment> \<open>the format specification \<open><25\<close>: pad on the right with spaces, never truncate\<close>
  "ljust n s = s @ replicate (n - length s) CHR '' ''"

fun str_nat :: "nat \<Rightarrow> string" where
  \<comment> \<open>\<open>str(n)\<close> for a non-negative integer\<close>
  "str_nat n =
     (if n < 10 then [char_of (48 + n)]
      else str_nat (n div 10) @ [char_of (48 + n mod 10)])"

declare str_nat.simps [simp del]

text \<open>An exception is recorded by its class; a class stands for its subclasses too.\<close>

datatype exn =
    ImportError \<comment> \<open>ImportError and its subclass ModuleNotFoundError\<close>
  | AttributeError
  | ValueError \<comment> \<open>ValueError and its subclasses, such as UnicodeDecodeError\<close>
  | OSError \<comment> \<open>OSError and its subclasses, such as PermissionError\<close>
  | RuntimeError
  | OtherException string \<comment> \<open>an exception of any other class, by its class name\<close>

type_synonym env = "string \<rightharpoonup> string"

definition environ_setitem :: "env \<Rightarrow> string \<Rightarrow> string \<Rightarrow> exn + env" where
  \<comment> \<open>\<open>os.environ[k] = v\<close>: an embedded NUL is a ValueError, as is \<open>=\<close> in the name;
      setenv(3) rejects the empty name, which is an OSError.\<close>
  "environ_setitem e k v =
     (if CHR 0x00 \<in> set k \<or> CHR 0x00 \<in> set v then Inl ValueError
      else if CHR ''='' \<in> set k then Inl ValueError
      else if k = [] then Inl OSError
      else Inr (e(k \<mapsto> v)))"

section \<open>The state of the machine that the script probes\<close>

datatype dotenv_file =
    NoFile \<comment> \<open>\<open>Path(".env").exists()\<close> is false\<close>
  | ExistsFails exn
      \<comment> \<open>\<open>Path(".env").exists()\<close> raises: \<open>stat\<close> fails other than by a missing path\<close>
  | OpenFails exn \<comment> \<open>the path exists and \<open>open\<close> raises (a directory, no read permission)\<close>
  | ReadFails "string list" exn
      \<comment> \<open>the file opens, its iterator yields these lines and then raises (a byte that
          does not decode, a read error)\<close>
  | Lines "string list"
      \<comment> \<open>the file opens and its iterator yields these lines, each with its newline, and ends\<close>

record world =
  which :: "string \<Rightarrow> string option" \<comment> \<open>\<open>shutil.which\<close>\<close>
  home :: "string option"
    \<comment> \<open>\<open>str(Path.home())\<close>; \<open>None\<close> when no home directory can be determined and
        \<open>Path.home()\<close> raises RuntimeError\<close>
  path_exists :: "string \<Rightarrow> bool" \<comment> \<open>\<open>os.path.exists\<close>\<close>
  access_x :: "string \<Rightarrow> bool" \<comment> \<open>\<open>os.access(p, os.X_OK)\<close>\<close>
  isdir :: "string \<Rightarrow> bool"
    \<comment> \<open>\<open>os.path.isdir\<close>; \<open>shutil.which\<close> consults it, \<open>check_command\<close> does not\<close>
  find_spec :: "string \<Rightarrow> exn + bool"
    \<comment> \<open>\<open>importlib.util.find_spec\<close>: the exception raised, or whether the spec is not None\<close>
  environ :: env \<comment> \<open>\<open>os.environ\<close> when the script starts\<close>
  dotenv :: dotenv_file

text \<open>
  Writing to standard output is taken to succeed: the lines printed are collected in a
  list. Exceptions that no statement of the script causes (an interrupt, exhausted
  memory) are outside this model.
\<close>

section \<open>The script\<close>

datatype status = OK | MISSING | WARNING

definition ESC :: char where "ESC = CHR 0x1B"
definition GREEN :: string where "GREEN = ESC # ''[92m''"
definition RED :: string where "RED = ESC # ''[91m''"
definition YELLOW :: string where "YELLOW = ESC # ''[93m''"
definition CYAN :: string where "CYAN = ESC # ''[96m''"
definition RESET :: string where "RESET = ESC # ''[0m''"

fun print_status :: "string \<Rightarrow> status \<Rightarrow> string \<Rightarrow> string" where
  \<comment> \<open>the line that \<open>print_status\<close> prints\<close>
  "print_status name OK message =
     ''['' @ GREEN @ ''OK'' @ RESET @ ''] '' @ ljust 25 name @ '' '' @ message"
| "print_status name MISSING message =
     ''['' @ RED @ ''MISSING'' @ RESET @ ''] '' @ ljust 25 name @ '' '' @ message"
| "print_status name WARNING message =
     ''['' @ YELLOW @ ''WARNING'' @ RESET @ ''] '' @ ljust 25 name @ '' '' @ message"

subsection \<open>check\_command\<close>

definition common_paths :: "string \<Rightarrow> string \<Rightarrow> string list" where
  "common_paths hm cmd =
     [join hm [''go'', ''bin'', cmd],
      join hm [''.cargo'', ''bin'', cmd],
      join hm [''.local'', ''bin'', cmd],
      join hm [''bin'', cmd],
      ''/usr/local/go/bin/'' @ cmd]"

fun probe_common :: "world \<Rightarrow> string list \<Rightarrow> status \<times> string" where
  \<comment> \<open>the loop over \<open>common_paths\<close> and the return after it\<close>
  "probe_common w [] = (MISSING, ''Not found in PATH'')"
| "probe_common w (p # ps) =
     (if path_exists w p \<and> access_x w p
      then (WARNING, ''Found at '' @ p @ '' (Not in PATH)'')
      else probe_common w ps)"

definition check_common_dirs :: "world \<Rightarrow> string \<Rightarrow> exn + status \<times> string" where
  \<comment> \<open>the second step of \<open>check_command\<close>: the home directory, the list, the loop\<close>
  "check_common_dirs w cmd =
     (case home w of
        None \<Rightarrow> Inl RuntimeError
      | Some hm \<Rightarrow> Inr (probe_common w (common_paths hm cmd)))"

definition check_command :: "world \<Rightarrow> string \<Rightarrow> exn + status \<times> string" where
  "check_command w cmd =
     (case which w cmd of
        Some path \<Rightarrow>
          if path \<noteq> [] then Inr (OK, path)
          else check_common_dirs w cmd
      | None \<Rightarrow> check_common_dirs w cmd)"

subsection \<open>check\_python\_package\<close>

definition check_python_package :: "world \<Rightarrow> string \<Rightarrow> exn + status \<times> string" where
  "check_python_package w package =
     (case find_spec w package of
        Inr found \<Rightarrow>
          if found then Inr (OK, [])
          else Inr (MISSING, ''Run: pip install '' @ package)
      | Inl e \<Rightarrow>
          if e \<in> {ImportError, AttributeError, ValueError}
          then Inr (MISSING, ''Run: pip install '' @ package)
          else Inl e)"

subsection \<open>check\_env\_var\<close>

definition placeholders :: "string list" where
  "placeholders = [''your-key-here'', ''your-mistral-api-key'']"

definition check_env_var :: "env \<Rightarrow> string \<Rightarrow> status \<times> string" where
  "check_env_var e var =
     (case e var of
        None \<Rightarrow> (WARNING, ''Not set (some features may fail)'')
      | Some val \<Rightarrow>
          if val \<noteq> [] \<and> strip val \<noteq> [] then
            if val \<in> set placeholders then (WARNING, ''Set to placeholder value'')
            else (OK, ''Configured'')
          else (WARNING, ''Not set (some features may fail)''))"

subsection \<open>The settings file\<close>

definition is_assignment :: "string \<Rightarrow> bool" where
  \<comment> \<open>\<open>"=" in line and not line.startswith("#")\<close>\<close>
  "is_assignment line \<longleftrightarrow> CHR ''='' \<in> set line \<and> \<not> startswith line ''#''"

definition parse_assignment :: "string \<Rightarrow> exn + string \<times> string" where
  \<comment> \<open>\<open>k, v = line.strip().split("=", 1)\<close>: unpacking anything but two items is a ValueError\<close>
  "parse_assignment line =
     (case split1 CHR ''='' (strip line) of
        [k, v] \<Rightarrow> Inr (k, v)
      | _ \<Rightarrow> Inl ValueError)"

definition load_line :: "env \<Rightarrow> string \<Rightarrow> exn + env" where
  \<comment> \<open>the body of the loop over the lines of the file\<close>
  "load_line e line =
     (if is_assignment line then
        (case parse_assignment line of
           Inl x \<Rightarrow> Inl x
         | Inr (k, v) \<Rightarrow> environ_setitem e k v)
      else Inr e)"

fun load_lines :: "env \<Rightarrow> string list \<Rightarrow> exn + env" where
  "load_lines e [] = Inr e"
| "load_lines e (line # ls) =
     (case load_line e line of Inl x \<Rightarrow> Inl x | Inr e' \<Rightarrow> load_lines e' ls)"

definition load_dotenv :: "world \<Rightarrow> exn + string list \<times> env" where
  \<comment> \<open>the lines printed and the environment after the settings file step\<close>
  "load_dotenv w =
     (case dotenv w of
        NoFile \<Rightarrow>
          Inr ([print_status ''.env file'' MISSING ''Copy .env.example to .env''], environ w)
      | ExistsFails x \<Rightarrow> Inl x
      | OpenFails x \<Rightarrow> Inl x
      | ReadFails ls x \<Rightarrow>
          (case load_lines (environ w) ls of
             Inl y \<Rightarrow> Inl y
           | Inr e' \<Rightarrow> Inl x)
      | Lines ls \<Rightarrow>
          (case load_lines (environ w) ls of
             Inl x \<Rightarrow> Inl x
           | Inr e' \<Rightarrow> Inr ([print_status ''.env file'' OK ''Found''], e')))"

subsection \<open>main\<close>

definition sys_tools :: "string list" where
  "sys_tools = [''git'', ''curl'', ''wget'', ''jq'', ''nmap'', ''go'', ''cargo'']"

definition py_packages :: "string list" where
  "py_packages = [''requests'', ''dnspython'', ''urllib3'', ''anthropic'', ''openai'',
                  ''google.generativeai'', ''mistune'', ''wafw00f'', ''paramspider'']"

definition sec_tools :: "string list" where
  "sec_tools = [''nmap'', ''rustscan'', ''naabu'', ''masscan'',
                ''subfinder'', ''amass'', ''assetfinder'', ''findomain'', ''puredns'',
                ''httpx'', ''nuclei'', ''nikto'', ''whatweb'', ''wafw00f'',
                ''sqlmap'', ''wpscan'', ''feroxbuster'', ''gobuster'', ''ffuf'',
                ''dirsearch'', ''gau'', ''waybackurls'', ''katana'', ''paramspider'']"

definition api_keys :: "string list" where
  "api_keys = [''MISTRAL_API_KEY'', ''OPENAI_API_KEY'', ''ANTHROPIC_API_KEY'', ''GOOGLE_API_KEY'']"

definition module_of :: "string \<Rightarrow> string" where
  \<comment> \<open>the module name that the package loop resolves\<close>
  "module_of pkg =
     (let module = pkg;
          module = (if pkg = ''dnspython'' then ''dns'' else module);
          module = (if pkg = ''google.generativeai'' then ''google.generativeai'' else module)
      in module)"

fun command_lines :: "world \<Rightarrow> string list \<Rightarrow> exn + string list" where
  \<comment> \<open>the loop over \<open>sys_tools\<close>: probe, then print; an exception in a probe ends it\<close>
  "command_lines w [] = Inr []"
| "command_lines w (tool # tools) =
     (case check_command w tool of
        Inl x \<Rightarrow> Inl x
      | Inr (st, msg) \<Rightarrow>
          (case command_lines w tools of
             Inl x \<Rightarrow> Inl x
           | Inr ls \<Rightarrow> Inr (print_status tool st msg # ls)))"

fun package_lines :: "world \<Rightarrow> string list \<Rightarrow> exn + string list" where
  \<comment> \<open>the loop over \<open>py_packages\<close>; an exception that escapes the probe ends it\<close>
  "package_lines w [] = Inr []"
| "package_lines w (pkg # pkgs) =
     (case check_python_package w (module_of pkg) of
        Inl x \<Rightarrow> Inl x
      | Inr (st, msg) \<Rightarrow>
          (case package_lines w pkgs of
             Inl x \<Rightarrow> Inl x
           | Inr ls \<Rightarrow> Inr (print_status pkg st msg # ls)))"

fun security_loop :: "world \<Rightarrow> string list \<Rightarrow> exn + string list \<times> string list" where
  \<comment> \<open>the loop over \<open>sec_tools\<close>: the lines printed and the list \<open>missing_tools\<close>\<close>
  "security_loop w [] = Inr ([], [])"
| "security_loop w (tool # tools) =
     (case check_command w tool of
        Inl x \<Rightarrow> Inl x
      | Inr (st, msg) \<Rightarrow>
          (case security_loop w tools of
             Inl x \<Rightarrow> Inl x
           | Inr (ls, missing) \<Rightarrow>
               Inr (print_status tool st msg # ls,
                    if st = MISSING then tool # missing else missing)))"

definition env_var_line :: "env \<Rightarrow> string \<Rightarrow> string" where
  "env_var_line e key = (case check_env_var e key of (st, msg) \<Rightarrow> print_status key st msg)"

definition rule50 :: string where
  "rule50 = replicate 50 CHR ''=''"

definition summary :: "string list \<Rightarrow> string list" where
  \<comment> \<open>what is printed after the last probe, from the collected list\<close>
  "summary missing =
     [CHR 0x0A # rule50] @
     (if missing \<noteq> [] then
        [YELLOW @ ''Warning: '' @ str_nat (length missing)
           @ '' tools are missing or not in PATH.'' @ RESET,
         ''Run usage tests to see if these are critical for your workflow.'',
         ''To install missing tools, run: ./install_tools.sh'',
         ''If tools show as WARNING (Found at...), run: source ~/.bashrc'']
      else [GREEN @ ''All checked tools are installed!'' @ RESET]) @
     [rule50 @ [CHR 0x0A]]"

definition main :: "world \<Rightarrow> exn + string list \<times> env" where
  \<comment> \<open>the lines printed and the final environment, or the exception that ends the run\<close>
  "main w =
     (case command_lines w sys_tools of
        Inl x \<Rightarrow> Inl x
      | Inr out1 \<Rightarrow>
     (case package_lines w py_packages of
        Inl x \<Rightarrow> Inl x
      | Inr out2 \<Rightarrow>
     (case security_loop w sec_tools of
        Inl x \<Rightarrow> Inl x
      | Inr (out3, missing_tools) \<Rightarrow>
     (case load_dotenv w of
        Inl x \<Rightarrow> Inl x
      | Inr (out4, e') \<Rightarrow>
          Inr ([CHR 0x0A # CYAN @ ''NeuroSploit Tool Verification Script'' @ RESET, rule50]
               @ [CHR 0x0A # CYAN @ ''[+] Checking System Tools'' @ RESET] @ out1
               @ [CHR 0x0A # CYAN @ ''[+] Checking Python Libraries'' @ RESET] @ out2
               @ [CHR 0x0A # CYAN @ ''[+] Checking Security Tools'' @ RESET] @ out3
               @ [CHR 0x0A # CYAN @ ''[+] Checking Configuration (.env)'' @ RESET] @ out4
               @ map (env_var_line e') api_keys
               @ summary missing_tools,
               e')))))"


section \<open>Notions used to state the properties\<close>

text \<open>
  A command name is bare when it is a file name: not empty, without a separator, and
  neither of the two names that every directory holds. The catalogs of the script hold
  bare names only. The entry named \<open>n\<close> of the directory \<open>d\<close> is the path \<open>d/n\<close>,
  written without a doubled separator when \<open>d\<close> already ends in one. An entry is
  executable for the resolver when it exists and the process may execute it, whether it
  is a file or a directory; it is an executable file when it is, besides, no directory.
  The fallback directories are the five that the specification lists, below the home
  directory \<open>hm\<close>. A command is on the search path when \<open>shutil.which\<close> returns a path
  for it.
\<close>

definition bare_name :: "string \<Rightarrow> bool" where
  "bare_name n \<longleftrightarrow> n \<noteq> [] \<and> CHR ''/'' \<notin> set n \<and> n \<noteq> ''.'' \<and> n \<noteq> ''..''"

definition on_path :: "world \<Rightarrow> string \<Rightarrow> bool" where
  "on_path w cmd = (case which w cmd of None \<Rightarrow> False | Some p \<Rightarrow> p \<noteq> [])"






text \<open>
  The status that the probe of a tool returns, if it returns, and the security tools
  whose probe returns \<open>MISSING\<close>.
\<close>

definition probe_status :: "world \<Rightarrow> string \<Rightarrow> status option" where
  "probe_status w tool =
     (case check_command w tool of Inl x \<Rightarrow> None | Inr (st, msg) \<Rightarrow> Some st)"

definition missing_tools :: "world \<Rightarrow> string list" where
  "missing_tools w = filter (\<lambda>tool. probe_status w tool = Some MISSING) sec_tools"

text \<open>
  The lines that \<open>main\<close> prints before the variable probes, from the lines of its three
  loops and of the settings file step.
\<close>

definition report_head ::
  "string list \<Rightarrow> string list \<Rightarrow> string list \<Rightarrow> string list \<Rightarrow> string list" where
  "report_head out1 out2 out3 out4 =
     [CHR 0x0A # CYAN @ ''NeuroSploit Tool Verification Script'' @ RESET, rule50]
     @ [CHR 0x0A # CYAN @ ''[+] Checking System Tools'' @ RESET] @ out1
     @ [CHR 0x0A # CYAN @ ''[+] Checking Python Libraries'' @ RESET] @ out2
     @ [CHR 0x0A # CYAN @ ''[+] Checking Security Tools'' @ RESET] @ out3
     @ [CHR 0x0A # CYAN @ ''[+] Checking Configuration (.env)'' @ RESET] @ out4"

text \<open>
  The assignment that a line of the settings file makes, if it is an assignment, and its
  key. The mapping that a settings file describes: each key with the value of the last
  line that assigns it.
\<close>

definition assignment :: "string \<Rightarrow> (string \<times> string) option" where
  "assignment line =
     (if is_assignment line then
        (case parse_assignment line of Inr (k, v) \<Rightarrow> Some (k, v) | Inl x \<Rightarrow> None)
      else None)"

definition assigned_key :: "string \<Rightarrow> string option" where
  "assigned_key line = map_option fst (assignment line)"

fun file_assignments :: "string list \<Rightarrow> env" where
  "file_assignments [] = Map.empty"
| "file_assignments (line # ls) =
     (case assignment line of
        None \<Rightarrow> file_assignments ls
      | Some (k, v) \<Rightarrow> [k \<mapsto> v] ++ file_assignments ls)"

text \<open>
  The conditions under which \<open>main\<close> completes. The tools resolve when the home directory
  can be determined or every tool of the two catalogs is on the search path. A lookup is
  caught when it returns or raises one of the three exceptions of the handler. A line
  loads when it is skipped, or its key is not empty and it holds no NUL character; the
  settings file loads when it is absent, or it is opened and read to its end and each of
  its lines loads.
\<close>

definition tools_resolve :: "world \<Rightarrow> bool" where
  "tools_resolve w \<longleftrightarrow> home w \<noteq> None \<or> list_all (on_path w) (sys_tools @ sec_tools)"

definition lookup_caught :: "world \<Rightarrow> string \<Rightarrow> bool" where
  "lookup_caught w pkg =
     (case find_spec w (module_of pkg) of
        Inl x \<Rightarrow> x \<in> {ImportError, AttributeError, ValueError}
      | Inr found \<Rightarrow> True)"

definition lookups_caught :: "world \<Rightarrow> bool" where
  "lookups_caught w = list_all (lookup_caught w) py_packages"

definition line_loads :: "string \<Rightarrow> bool" where
  "line_loads line \<longleftrightarrow>
     \<not> is_assignment line \<or> (\<not> startswith (strip line) ''='' \<and> CHR 0x00 \<notin> set line)"

definition dotenv_loads :: "world \<Rightarrow> bool" where
  "dotenv_loads w =
     (case dotenv w of
        NoFile \<Rightarrow> True
      | ExistsFails x \<Rightarrow> False
      | OpenFails x \<Rightarrow> False
      | ReadFails ls x \<Rightarrow> False
      | Lines ls \<Rightarrow> list_all line_loads ls)"

text \<open>Concrete machine states on which the theorems are instantiated.\<close>

definition w_demo :: world where
  "w_demo = \<lparr>which = (\<lambda>c. if c = ''git'' then Some ''/usr/bin/git'' else None),
     home = Some ''/home/user'',
     path_exists = (\<lambda>p. p = ''/home/user/go/bin/httpx''),
     access_x = (\<lambda>p. p = ''/home/user/go/bin/httpx''),
     isdir = (\<lambda>p. False),
     find_spec = (\<lambda>m. if m = ''requests'' then Inr True
                        else if m = ''dns'' then Inl ImportError else Inr False),
     environ = [''ANTHROPIC_API_KEY'' \<mapsto> ''your-key-here''],
     dotenv = Lines [''ANTHROPIC_API_KEY=sk-real123'' @ [CHR 0x0A]]\<rparr>"



definition env_demo :: env where
  "env_demo = [''MISTRAL_API_KEY'' \<mapsto> ''your-mistral-api-key'',
               ''OPENAI_API_KEY'' \<mapsto> ''  '',
               ''ANTHROPIC_API_KEY'' \<mapsto> ''sk-real123'']"

definition w_broken_parent :: world where
  "w_broken_parent = w_demo\<lparr>find_spec :=
     (\<lambda>m. if m = ''google.generativeai'' then Inl (OtherException ''SyntaxError'')
          else Inr False)\<rparr>"



definition w_all_present :: world where
  "w_all_present = w_demo\<lparr>which := (\<lambda>c. Some (''/usr/bin/'' @ c)), dotenv := NoFile\<rparr>"

definition w_reassign :: world where
  "w_reassign = w_demo\<lparr>dotenv :=
     Lines [''ANTHROPIC_API_KEY=sk-real123'' @ [CHR 0x0A], ''ANTHROPIC_API_KEY='' @ [CHR 0x0A]]\<rparr>"

definition w_bad_line_first :: world where
  "w_bad_line_first = w_demo\<lparr>dotenv :=
     Lines [''=value'' @ [CHR 0x0A], ''ANTHROPIC_API_KEY=sk-real123'' @ [CHR 0x0A]]\<rparr>"

section \<open>Properties\<close>

subsection \<open>Library functions\<close>

lemma strip_Nil_iff: "strip s = [] \<longleftrightarrow> (\<forall>c\<in>set s. isspace c)"
proof -
  have "strip s = [] \<longleftrightarrow> (\<forall>c\<in>set (dropWhile isspace s). isspace c)"
    by (simp add: strip_def lstrip_def rstrip_def dropWhile_eq_Nil_conv)
  also have "\<dots> \<longleftrightarrow> dropWhile isspace s = []"
  proof (cases "dropWhile isspace s")
    case Nil
    then show ?thesis by (simp only: list.set ball_empty simp_thms)
  next
    case (Cons a as)
    with hd_dropWhile [of isspace s] have "\<not> isspace a" by simp
    with Cons show ?thesis by auto
  qed
  also have "\<dots> \<longleftrightarrow> (\<forall>c\<in>set s. isspace c)"
    by (simp add: dropWhile_eq_Nil_conv)
  finally show ?thesis .
qed

subsection \<open>The command resolver\<close>






lemma catalog_names_bare: "list_all bare_name (sys_tools @ sec_tools)"
  by (simp add: sys_tools_def sec_tools_def bare_name_def)



lemma check_command_Inr_iff:
  "(\<exists>r. check_command w cmd = Inr r) \<longleftrightarrow> on_path w cmd \<or> home w \<noteq> None"
  by (auto simp: check_command_def check_common_dirs_def on_path_def split: option.splits)




subsection \<open>The variable resolver\<close>

lemma check_env_var_cases:
  "check_env_var e var =
     (case e var of
        None \<Rightarrow> (WARNING, ''Not set (some features may fail)'')
      | Some val \<Rightarrow>
          if \<forall>c\<in>set val. isspace c then (WARNING, ''Not set (some features may fail)'')
          else if val \<in> set placeholders then (WARNING, ''Set to placeholder value'')
          else (OK, ''Configured''))"
  by (auto simp: check_env_var_def strip_Nil_iff split: option.splits)

text \<open>
  Claim C2. A variable that is unset, empty or all whitespace is reported \<open>WARNING\<close>
  (not set); a variable whose value equals a placeholder is reported \<open>WARNING\<close>
  (placeholder); every other variable is reported \<open>OK\<close>, "Configured". The status is
  never \<open>MISSING\<close>.
\<close>

theorem check_env_var_classification:
  "(e var = None \<or> (\<exists>val. e var = Some val \<and> (\<forall>c\<in>set val. isspace c))
      \<longrightarrow> check_env_var e var = (WARNING, ''Not set (some features may fail)''))
   \<and> (\<forall>val. e var = Some val \<and> val \<in> set placeholders
      \<longrightarrow> check_env_var e var = (WARNING, ''Set to placeholder value''))
   \<and> (\<forall>val. e var = Some val \<and> \<not> (\<forall>c\<in>set val. isspace c) \<and> val \<notin> set placeholders
      \<longrightarrow> check_env_var e var = (OK, ''Configured''))
   \<and> fst (check_env_var e var) \<noteq> MISSING"
proof -
  have y: "\<not> isspace CHR ''y''"
    by (simp add: isspace_def)
  have "CHR ''y'' \<in> set val" if "val \<in> set placeholders" for val
    using that by (auto simp: placeholders_def)
  with y have ph: "\<not> (\<forall>c\<in>set val. isspace c)" if "val \<in> set placeholders" for val
    using that by blast
  show ?thesis
    using ph by (auto simp: check_env_var_cases split: option.splits)
qed

theorem check_env_var_classification_witness:
  "check_env_var env_demo ''GOOGLE_API_KEY'' = (WARNING, ''Not set (some features may fail)'')
   \<and> check_env_var env_demo ''OPENAI_API_KEY'' = (WARNING, ''Not set (some features may fail)'')
   \<and> check_env_var env_demo ''MISTRAL_API_KEY'' = (WARNING, ''Set to placeholder value'')
   \<and> check_env_var env_demo ''ANTHROPIC_API_KEY'' = (OK, ''Configured'')"
proof -
  have unset: "check_env_var e var = (WARNING, ''Not set (some features may fail)'')"
    if "e var = None" for e var
    using check_env_var_classification [of e var] that by simp
  have blank: "check_env_var e var = (WARNING, ''Not set (some features may fail)'')"
    if "e var = Some val" and "\<forall>c\<in>set val. isspace c" for e var val
    using check_env_var_classification [of e var] that by simp
  have sentinel: "check_env_var e var = (WARNING, ''Set to placeholder value'')"
    if "e var = Some val" and "val \<in> set placeholders" for e var val
    using check_env_var_classification [of e var] that by simp
  have configured: "check_env_var e var = (OK, ''Configured'')"
    if "e var = Some val" and "\<not> (\<forall>c\<in>set val. isspace c)" and "val \<notin> set placeholders"
    for e var val
    using check_env_var_classification [of e var] that by simp
  have a: "env_demo ''GOOGLE_API_KEY'' = None"
    by (simp add: env_demo_def)
  have b1: "env_demo ''OPENAI_API_KEY'' = Some ''  ''"
    by (simp add: env_demo_def)
  have b2: "\<forall>c\<in>set ''  ''. isspace c"
    by (simp add: isspace_def)
  have c1: "env_demo ''MISTRAL_API_KEY'' = Some ''your-mistral-api-key''"
    by (simp add: env_demo_def)
  have c2: "''your-mistral-api-key'' \<in> set placeholders"
    by (simp add: placeholders_def)
  have d1: "env_demo ''ANTHROPIC_API_KEY'' = Some ''sk-real123''"
    by (simp add: env_demo_def)
  have d2: "\<not> (\<forall>c\<in>set ''sk-real123''. isspace c)"
    by (simp add: isspace_def)
  have d3: "''sk-real123'' \<notin> set placeholders"
    by (simp add: placeholders_def)
  show ?thesis
    using unset [of env_demo "''GOOGLE_API_KEY''", OF a]
      blank [of env_demo "''OPENAI_API_KEY''", OF b1 b2]
      sentinel [of env_demo "''MISTRAL_API_KEY''", OF c1 c2]
      configured [of env_demo "''ANTHROPIC_API_KEY''", OF d1 d2 d3]
    by (intro conjI)
qed

subsection \<open>The settings file\<close>

lemma in_set_dropWhile: "x \<in> set xs \<Longrightarrow> \<not> P x \<Longrightarrow> x \<in> set (dropWhile P xs)"
  by (induction xs) auto

lemma eq_not_space: "\<not> isspace CHR ''=''"
  by (simp add: isspace_def)


lemma set_strip_subset: "set (strip s) \<subseteq> set s"
proof -
  have "set (strip s) \<subseteq> set (dropWhile isspace s)"
    using set_dropWhileD [of _ isspace "rev (dropWhile isspace s)"]
    by (auto simp: strip_def lstrip_def rstrip_def)
  also have "\<dots> \<subseteq> set s"
    using set_dropWhileD [of _ isspace s] by auto
  finally show ?thesis .
qed

lemma eq_in_strip: "CHR ''='' \<in> set s \<Longrightarrow> CHR ''='' \<in> set (strip s)"
  by (simp add: strip_def lstrip_def rstrip_def in_set_dropWhile eq_not_space)

lemma rstrip_Cons: "\<not> isspace x \<Longrightarrow> rstrip (x # xs) = x # rstrip xs"
  by (simp add: rstrip_def dropWhile_append)

lemma last_strip: "strip s \<noteq> [] \<Longrightarrow> \<not> isspace (last (strip s))"
proof -
  assume a: "strip s \<noteq> []"
  let ?t = "dropWhile isspace (rev (lstrip s))"
  from a have "?t \<noteq> []" by (simp add: strip_def rstrip_def)
  then have "\<not> isspace (hd ?t)" by (rule hd_dropWhile)
  moreover have "last (strip s) = hd ?t"
    using \<open>?t \<noteq> []\<close> by (simp add: strip_def rstrip_def last_rev)
  ultimately show ?thesis by simp
qed

lemma hd_strip: "strip s \<noteq> [] \<Longrightarrow> \<not> isspace (hd (strip s))"
proof -
  assume a: "strip s \<noteq> []"
  have "lstrip s \<noteq> []"
  proof
    assume "lstrip s = []"
    then have "strip s = []" by (simp add: strip_def rstrip_def)
    with a show False by simp
  qed
  then obtain x xs where l: "lstrip s = x # xs" by (cases "lstrip s") auto
  then have "dropWhile isspace s \<noteq> []" and "hd (dropWhile isspace s) = x"
    by (simp_all add: lstrip_def)
  with hd_dropWhile [of isspace s] have "\<not> isspace x" by metis
  with l show ?thesis by (simp add: strip_def rstrip_Cons)
qed

lemma split1_eq:
  "CHR ''='' \<in> set s \<Longrightarrow>
     split1 CHR ''='' s = [takeWhile (\<lambda>c. c \<noteq> CHR ''='') s, tl (dropWhile (\<lambda>c. c \<noteq> CHR ''='') s)]"
  by (simp add: split1_def)

lemma split_at_first:
  "x \<in> set s \<Longrightarrow> s = takeWhile (\<lambda>c. c \<noteq> x) s @ x # tl (dropWhile (\<lambda>c. c \<noteq> x) s)"
  by (induction s) auto

lemma parse_assignment_eq:
  assumes "CHR ''='' \<in> set line"
  shows "parse_assignment line =
           Inr (takeWhile (\<lambda>c. c \<noteq> CHR ''='') (strip line),
                tl (dropWhile (\<lambda>c. c \<noteq> CHR ''='') (strip line)))"
  using eq_in_strip [OF assms] by (simp add: parse_assignment_def split1_eq)

lemma parse_assignment_parts:
  assumes "CHR ''='' \<in> set line"
  obtains k v where "parse_assignment line = Inr (k, v)" and "strip line = k @ ''='' @ v"
    and "CHR ''='' \<notin> set k"
proof
  let ?s = "strip line"
  let ?k = "takeWhile (\<lambda>c. c \<noteq> CHR ''='') ?s"
  let ?v = "tl (dropWhile (\<lambda>c. c \<noteq> CHR ''='') ?s)"
  show "parse_assignment line = Inr (?k, ?v)"
    by (rule parse_assignment_eq [OF assms])
  show "?s = ?k @ ''='' @ ?v"
    using split_at_first [OF eq_in_strip [OF assms]] by simp
  show "CHR ''='' \<notin> set ?k"
    using set_takeWhileD [of "CHR ''=''" "\<lambda>c. c \<noteq> CHR ''=''" ?s] by blast
qed

lemma load_line_skip: "\<not> is_assignment line \<Longrightarrow> load_line e line = Inr e"
  by (simp add: load_line_def)

lemma load_line_assign:
  "is_assignment line \<Longrightarrow> parse_assignment line = Inr (k, v) \<Longrightarrow>
     load_line e line = environ_setitem e k v"
  by (simp add: load_line_def)

lemma environ_setitem_ok:
  "k \<noteq> [] \<Longrightarrow> CHR ''='' \<notin> set k \<Longrightarrow> CHR 0x00 \<notin> set k \<Longrightarrow> CHR 0x00 \<notin> set v \<Longrightarrow>
     environ_setitem e k v = Inr (e(k \<mapsto> v))"
  by (simp add: environ_setitem_def)


lemma parts_nul_free:
  assumes "strip line = k @ ''='' @ v" and "CHR 0x00 \<notin> set line"
  shows "CHR 0x00 \<notin> set k" and "CHR 0x00 \<notin> set v"
proof -
  have "set k \<subseteq> set (strip line)" and "set v \<subseteq> set (strip line)"
    using assms(1) by auto
  with set_strip_subset [of line] assms(2) show "CHR 0x00 \<notin> set k" and "CHR 0x00 \<notin> set v"
    by blast+
qed

lemma load_line_KEY:
  "load_line e ''KEY=value with=equals'' = Inr (e(''KEY'' \<mapsto> ''value with=equals''))"
  by (simp add: load_line_def is_assignment_def parse_assignment_def strip_def lstrip_def
        rstrip_def split1_def isspace_def environ_setitem_def)

lemma load_line_KEY_spaced:
  "load_line e ''KEY = value'' = Inr (e(''KEY '' \<mapsto> '' value''))"
  by (simp add: load_line_def is_assignment_def parse_assignment_def strip_def lstrip_def
        rstrip_def split1_def isspace_def environ_setitem_def)

text \<open>
  Claim C3, with its last part restricted. A line that contains \<open>=\<close> and does not start
  with \<open>#\<close> is split at the first \<open>=\<close> of the stripped line, and the two parts are what
  is stored; the line \<open>KEY=value with=equals\<close> stores \<open>value with=equals\<close> under
  \<open>KEY\<close>. A line that starts with \<open>#\<close> is skipped, also when it contains \<open>=\<close>, and so
  is a line without \<open>=\<close>. A skipped line never fails, and an assignment line does not
  fail when its key is not empty and the line has no NUL character.
\<close>

theorem settings_line_parsing:
  "(is_assignment line \<longrightarrow>
      (\<exists>k v. parse_assignment line = Inr (k, v) \<and> strip line = k @ ''='' @ v
         \<and> CHR ''='' \<notin> set k \<and> load_line e line = environ_setitem e k v
         \<and> (k \<noteq> [] \<and> CHR 0x00 \<notin> set line \<longrightarrow> load_line e line = Inr (e(k \<mapsto> v)))))
   \<and> load_line e ''KEY=value with=equals'' = Inr (e(''KEY'' \<mapsto> ''value with=equals''))
   \<and> (startswith line ''#'' \<longrightarrow> load_line e line = Inr e)
   \<and> (CHR ''='' \<notin> set line \<longrightarrow> load_line e line = Inr e)"
proof (intro conjI impI)
  assume a: "is_assignment line"
  then have "CHR ''='' \<in> set line" by (simp add: is_assignment_def)
  then obtain k v where p: "parse_assignment line = Inr (k, v)"
    and s: "strip line = k @ ''='' @ v" and k: "CHR ''='' \<notin> set k"
    by (rule parse_assignment_parts)
  have l: "load_line e line = environ_setitem e k v"
    using a p by (rule load_line_assign)
  have "load_line e line = Inr (e(k \<mapsto> v))" if "k \<noteq> []" and "CHR 0x00 \<notin> set line"
    using l that k parts_nul_free [OF s] by (simp add: environ_setitem_ok)
  with p s k l show "\<exists>k v. parse_assignment line = Inr (k, v) \<and> strip line = k @ ''='' @ v
         \<and> CHR ''='' \<notin> set k \<and> load_line e line = environ_setitem e k v
         \<and> (k \<noteq> [] \<and> CHR 0x00 \<notin> set line \<longrightarrow> load_line e line = Inr (e(k \<mapsto> v)))"
    by blast
next
  show "load_line e ''KEY=value with=equals'' = Inr (e(''KEY'' \<mapsto> ''value with=equals''))"
    by (rule load_line_KEY)
next
  assume "startswith line ''#''"
  then show "load_line e line = Inr e"
    by (simp add: load_line_skip is_assignment_def)
next
  assume "CHR ''='' \<notin> set line"
  then show "load_line e line = Inr e"
    by (simp add: load_line_skip is_assignment_def)
qed

theorem settings_line_parsing_witness:
  "load_line Map.empty ''#DEBUG=1'' = Inr Map.empty
   \<and> load_line Map.empty ''just some text'' = Inr Map.empty
   \<and> (\<exists>k v. parse_assignment ''A=b=c'' = Inr (k, v) \<and> load_line Map.empty ''A=b=c'' = Inr [k \<mapsto> v])"
proof -
  have comment: "load_line e line = Inr e" if "startswith line ''#''" for e line
    using settings_line_parsing [of line e] that by blast
  have plain: "load_line e line = Inr e" if "CHR ''='' \<notin> set line" for e line
    using settings_line_parsing [of line e] that by blast
  have assign: "\<exists>k v. parse_assignment line = Inr (k, v) \<and> strip line = k @ ''='' @ v
      \<and> (k \<noteq> [] \<and> CHR 0x00 \<notin> set line \<longrightarrow> load_line e line = Inr (e(k \<mapsto> v)))"
    if "is_assignment line" for e line
    using settings_line_parsing [of line e] that by blast
  have c: "startswith ''#DEBUG=1'' ''#''" by simp
  have p: "CHR ''='' \<notin> set ''just some text''" by simp
  have a: "is_assignment ''A=b=c''" by (simp add: is_assignment_def)
  have s: "strip ''A=b=c'' = ''A=b=c''"
    by (simp add: strip_def lstrip_def rstrip_def isspace_def)
  have n: "CHR 0x00 \<notin> set ''A=b=c''" by simp
  from assign [OF a, of Map.empty] obtain k v
    where kv: "parse_assignment ''A=b=c'' = Inr (k, v)" "strip ''A=b=c'' = k @ ''='' @ v"
      "k \<noteq> [] \<and> CHR 0x00 \<notin> set ''A=b=c'' \<longrightarrow> load_line Map.empty ''A=b=c'' = Inr [k \<mapsto> v]"
    by blast
  from kv(2) s have "k \<noteq> []" by (cases k) auto
  with kv n have "parse_assignment ''A=b=c'' = Inr (k, v) \<and> load_line Map.empty ''A=b=c'' = Inr [k \<mapsto> v]"
    by blast
  with comment [OF c, of Map.empty] plain [OF p, of Map.empty] show ?thesis by blast
qed

text \<open>
  Claim C3 as stated fails at the line \<open>=value\<close>: it is parsed as an assignment with the
  empty key, which the process environment rejects, and the exception ends the loop.
\<close>

theorem empty_key_line_counterexample:
  "is_assignment (''=value'' @ [CHR 0x0A])
   \<and> load_lines Map.empty [''=value'' @ [CHR 0x0A]] = Inl OSError"
  by (simp add: load_line_def is_assignment_def parse_assignment_def strip_def lstrip_def
        rstrip_def split1_def isspace_def environ_setitem_def)

text \<open>
  Claim C4, amended. The line is stripped as a whole before it is split: the stored key is
  the stripped line up to its first \<open>=\<close> and the stored value is the rest, so the key has
  no leading whitespace and the value has no trailing whitespace, while whitespace next to
  the \<open>=\<close> is kept. The line \<open>KEY = value\<close> stores the value \<open> value\<close>, with its
  leading space, under the key \<open>KEY \<close>, with its trailing space.
\<close>

theorem assignment_whitespace:
  "(is_assignment line \<longrightarrow>
      (\<exists>k v. parse_assignment line = Inr (k, v) \<and> load_line e line = environ_setitem e k v
         \<and> strip line = k @ ''='' @ v \<and> CHR ''='' \<notin> set k
         \<and> (k \<noteq> [] \<longrightarrow> \<not> isspace (hd k))
         \<and> (v \<noteq> [] \<longrightarrow> \<not> isspace (last v))))
   \<and> load_line e ''KEY = value'' = Inr (e(''KEY '' \<mapsto> '' value''))"
proof (intro conjI impI)
  assume a: "is_assignment line"
  then have "CHR ''='' \<in> set line" by (simp add: is_assignment_def)
  then obtain k v where p: "parse_assignment line = Inr (k, v)"
    and s: "strip line = k @ ''='' @ v" and k: "CHR ''='' \<notin> set k"
    by (rule parse_assignment_parts)
  have l: "load_line e line = environ_setitem e k v"
    using a p by (rule load_line_assign)
  from s have ne: "strip line \<noteq> []" by simp
  have hk: "\<not> isspace (hd k)" if "k \<noteq> []"
    using hd_strip [OF ne] s that by simp
  have lv: "\<not> isspace (last v)" if "v \<noteq> []"
    using last_strip [OF ne] s that by simp
  from p l s k hk lv
  show "\<exists>k v. parse_assignment line = Inr (k, v) \<and> load_line e line = environ_setitem e k v
         \<and> strip line = k @ ''='' @ v \<and> CHR ''='' \<notin> set k
         \<and> (k \<noteq> [] \<longrightarrow> \<not> isspace (hd k))
         \<and> (v \<noteq> [] \<longrightarrow> \<not> isspace (last v))"
    by blast
next
  show "load_line e ''KEY = value'' = Inr (e(''KEY '' \<mapsto> '' value''))"
    by (rule load_line_KEY_spaced)
qed

theorem assignment_whitespace_witness:
  "\<exists>k v. parse_assignment '' NAME = some text  '' = Inr (k, v)
     \<and> strip '' NAME = some text  '' = k @ ''='' @ v
     \<and> (k \<noteq> [] \<longrightarrow> \<not> isspace (hd k)) \<and> (v \<noteq> [] \<longrightarrow> \<not> isspace (last v))"
proof -
  have a: "is_assignment '' NAME = some text  ''"
    by (simp add: is_assignment_def)
  from assignment_whitespace [of "'' NAME = some text  ''" Map.empty] a show ?thesis
    by blast
qed

text \<open>
  Claim C4 as stated fails at the line \<open>KEY = value\<close>: neither the key nor the value that
  is stored is stripped.
\<close>

theorem key_not_stripped_counterexample:
  "parse_assignment (''KEY = value'' @ [CHR 0x0A]) = Inr (''KEY '', '' value'')
   \<and> load_line Map.empty (''KEY = value'' @ [CHR 0x0A]) = Inr [''KEY '' \<mapsto> '' value'']
   \<and> strip ''KEY '' \<noteq> ''KEY '' \<and> strip '' value'' \<noteq> '' value''"
  by (simp add: load_line_def is_assignment_def parse_assignment_def strip_def lstrip_def
        rstrip_def split1_def isspace_def environ_setitem_def)



subsection \<open>The package resolver\<close>

text \<open>
  Claim C5, amended. A lookup that returns a spec gives \<open>OK\<close>; a lookup that returns none
  gives \<open>MISSING\<close> with the install hint; a lookup that raises ImportError, AttributeError
  or ValueError is caught and gives the same result as a lookup that returns none; a
  lookup that raises any other exception is not caught, and the exception reaches the
  caller.
\<close>

theorem check_python_package_caught:
  "(find_spec w p = Inr True \<longrightarrow> check_python_package w p = Inr (OK, []))
   \<and> (find_spec w p = Inr False
        \<longrightarrow> check_python_package w p = Inr (MISSING, ''Run: pip install '' @ p))
   \<and> (\<forall>x. find_spec w p = Inl x \<and> x \<in> {ImportError, AttributeError, ValueError}
        \<longrightarrow> check_python_package w p = Inr (MISSING, ''Run: pip install '' @ p))
   \<and> (\<forall>x. find_spec w p = Inl x \<and> x \<notin> {ImportError, AttributeError, ValueError}
        \<longrightarrow> check_python_package w p = Inl x)"
  by (simp add: check_python_package_def)

theorem check_python_package_caught_witness:
  "check_python_package w_demo ''dns'' = Inr (MISSING, ''Run: pip install dns'')
   \<and> check_python_package w_demo ''openai'' = Inr (MISSING, ''Run: pip install openai'')
   \<and> check_python_package w_demo ''requests'' = Inr (OK, [])"
proof -
  have a: "find_spec w_demo ''dns'' = Inl ImportError
           \<and> ImportError \<in> {ImportError, AttributeError, ValueError}"
    by (simp add: w_demo_def)
  have b: "find_spec w_demo ''openai'' = Inr False"
    by (simp add: w_demo_def)
  have c: "find_spec w_demo ''requests'' = Inr True"
    by (simp add: w_demo_def)
  have "check_python_package w_demo ''dns'' = Inr (MISSING, ''Run: pip install '' @ ''dns'')"
    using check_python_package_caught [of w_demo "''dns''"] a by blast
  moreover
  have "check_python_package w_demo ''openai'' = Inr (MISSING, ''Run: pip install '' @ ''openai'')"
    using check_python_package_caught [of w_demo "''openai''"] b by blast
  moreover
  have "check_python_package w_demo ''requests'' = Inr (OK, [])"
    using check_python_package_caught [of w_demo "''requests''"] c by blast
  ultimately show ?thesis by simp
qed

text \<open>
  Claim C5 as stated fails when the lookup raises an exception outside the three caught
  classes, as \<open>find_spec\<close> does for a dotted name whose parent package fails to import with
  a SyntaxError: the exception leaves \<open>check_python_package\<close>.
\<close>

theorem uncaught_lookup_failure_counterexample:
  "find_spec w_broken_parent ''google.generativeai'' = Inl (OtherException ''SyntaxError'')
   \<and> check_python_package w_broken_parent ''google.generativeai''
       = Inl (OtherException ''SyntaxError'')"
  by (simp add: w_broken_parent_def w_demo_def check_python_package_def)

text \<open>
  Claim C8 at the catalog entry \<open>dnspython\<close>: the probe is called with the mapped module
  name \<open>dns\<close> and builds its hint from that argument, so the line printed for the
  package \<open>dnspython\<close> carries the hint \<open>Run: pip install dns\<close>.
\<close>

theorem dnspython_hint_names_module:
  "module_of ''dnspython'' = ''dns''
   \<and> check_python_package w_demo (module_of ''dnspython'')
       = Inr (MISSING, ''Run: pip install dns'')
   \<and> package_lines w_demo [''dnspython'']
       = Inr [print_status ''dnspython'' MISSING ''Run: pip install dns'']"
  by (simp add: module_of_def check_python_package_def w_demo_def)

subsection \<open>The structure of main\<close>

lemma probe_common_cong:
  "path_exists w' = path_exists w \<Longrightarrow> access_x w' = access_x w \<Longrightarrow>
     probe_common w' ps = probe_common w ps"
  by (induction ps) simp_all

lemma check_command_cong:
  assumes "which w' = which w" and "home w' = home w"
    and "path_exists w' = path_exists w" and "access_x w' = access_x w"
  shows "check_command w' t = check_command w t"
  using assms probe_common_cong [OF assms(3,4)]
  by (simp add: check_command_def check_common_dirs_def split: option.splits)

lemma command_lines_cong:
  assumes "which w' = which w" and "home w' = home w"
    and "path_exists w' = path_exists w" and "access_x w' = access_x w"
  shows "command_lines w' ts = command_lines w ts"
  by (induction ts) (simp_all add: check_command_cong [OF assms] split: sum.splits prod.splits)

lemma security_loop_cong:
  assumes "which w' = which w" and "home w' = home w"
    and "path_exists w' = path_exists w" and "access_x w' = access_x w"
  shows "security_loop w' ts = security_loop w ts"
  by (induction ts) (simp_all add: check_command_cong [OF assms] split: sum.splits prod.splits)

lemma package_lines_cong:
  assumes "find_spec w' = find_spec w"
  shows "package_lines w' ps = package_lines w ps"
proof -
  have "check_python_package w' m = check_python_package w m" for m
    by (simp add: check_python_package_def assms)
  then show ?thesis
    by (induction ps) (simp_all split: sum.splits prod.splits)
qed

lemma command_lines_Inr_iff:
  "(\<exists>ls. command_lines w ts = Inr ls) \<longleftrightarrow> (\<forall>t\<in>set ts. \<exists>r. check_command w t = Inr r)"
proof (induction ts)
  case Nil
  then show ?case by simp
next
  case (Cons t ts)
  show ?case
  proof (cases "check_command w t")
    case (Inl x)
    then show ?thesis by simp
  next
    case (Inr r)
    with Cons.IH show ?thesis
      by (cases r; cases "command_lines w ts") auto
  qed
qed

lemma security_loop_Inr_iff:
  "(\<exists>r. security_loop w ts = Inr r) \<longleftrightarrow> (\<forall>t\<in>set ts. \<exists>r. check_command w t = Inr r)"
proof (induction ts)
  case Nil
  then show ?case by simp
next
  case (Cons t ts)
  show ?case
  proof (cases "check_command w t")
    case (Inl x)
    then show ?thesis by simp
  next
    case (Inr r)
    with Cons.IH show ?thesis
      by (cases r; cases "security_loop w ts") auto
  qed
qed

lemma security_loop_missing:
  "security_loop w ts = Inr (ls, m) \<Longrightarrow>
     m = filter (\<lambda>tool. probe_status w tool = Some MISSING) ts"
proof (induction ts arbitrary: ls m)
  case Nil
  then show ?case by simp
next
  case (Cons t ts)
  from Cons.prems obtain st msg where c: "check_command w t = Inr (st, msg)"
    by (cases "check_command w t") auto
  with Cons.prems obtain ls' m' where r: "security_loop w ts = Inr (ls', m')"
    by (cases "security_loop w ts") auto
  from Cons.IH [OF r] have m': "m' = filter (\<lambda>tool. probe_status w tool = Some MISSING) ts" .
  from Cons.prems c r have "m = (if st = MISSING then t # m' else m')"
    by auto
  with m' c show ?case
    by (simp add: probe_status_def)
qed

lemma main_Inr_I:
  assumes "command_lines w sys_tools = Inr o1" and "package_lines w py_packages = Inr o2"
    and "security_loop w sec_tools = Inr (o3, m)" and "load_dotenv w = Inr (o4, e')"
  shows "main w = Inr (report_head o1 o2 o3 o4 @ map (env_var_line e') api_keys @ summary m, e')"
  by (simp add: main_def report_head_def assms)

lemma main_Inr_D:
  assumes "main w = Inr (out, e')"
  obtains o1 o2 o3 o4 where "command_lines w sys_tools = Inr o1"
    and "package_lines w py_packages = Inr o2"
    and "security_loop w sec_tools = Inr (o3, missing_tools w)"
    and "load_dotenv w = Inr (o4, e')"
    and "out = report_head o1 o2 o3 o4 @ map (env_var_line e') api_keys
                 @ summary (missing_tools w)"
proof -
  from assms obtain o1 where o1: "command_lines w sys_tools = Inr o1"
    by (cases "command_lines w sys_tools") (simp_all add: main_def)
  from assms o1 obtain o2 where o2: "package_lines w py_packages = Inr o2"
    by (cases "package_lines w py_packages") (simp_all add: main_def)
  from assms o1 o2 obtain r3 where r3: "security_loop w sec_tools = Inr r3"
    by (cases "security_loop w sec_tools") (simp_all add: main_def)
  obtain o3 m where r3': "r3 = (o3, m)" by (cases r3)
  from assms o1 o2 r3 r3' obtain r4 where r4: "load_dotenv w = Inr r4"
    by (cases "load_dotenv w") (simp_all add: main_def)
  obtain o4 e2 where r4': "r4 = (o4, e2)" by (cases r4)
  have s: "security_loop w sec_tools = Inr (o3, m)" using r3 r3' by simp
  have l: "load_dotenv w = Inr (o4, e2)" using r4 r4' by simp
  from security_loop_missing [OF s] have m: "m = missing_tools w"
    by (simp add: missing_tools_def)
  from main_Inr_I [OF o1 o2 s l] assms
  have "e2 = e'" and "out = report_head o1 o2 o3 o4 @ map (env_var_line e') api_keys @ summary m"
    by auto
  with o1 o2 s l m that show thesis by blast
qed

lemma main_Inl_I:
  "command_lines w sys_tools = Inl x \<Longrightarrow> main w = Inl x"
  "command_lines w sys_tools = Inr o1 \<Longrightarrow> package_lines w py_packages = Inl x \<Longrightarrow> main w = Inl x"
  "command_lines w sys_tools = Inr o1 \<Longrightarrow> package_lines w py_packages = Inr o2 \<Longrightarrow>
     security_loop w sec_tools = Inl x \<Longrightarrow> main w = Inl x"
  "command_lines w sys_tools = Inr o1 \<Longrightarrow> package_lines w py_packages = Inr o2 \<Longrightarrow>
     security_loop w sec_tools = Inr r \<Longrightarrow> load_dotenv w = Inl x \<Longrightarrow> main w = Inl x"
  by (simp_all add: main_def split: prod.splits)

subsection \<open>When main completes\<close>

lemma nul_not_space: "\<not> isspace (CHR 0x00)"
  by (simp add: isspace_def)

lemma in_strip: "c \<in> set s \<Longrightarrow> \<not> isspace c \<Longrightarrow> c \<in> set (strip s)"
  by (simp add: strip_def lstrip_def rstrip_def in_set_dropWhile)

lemma load_line_Inr_iff: "(\<exists>e'. load_line e line = Inr e') \<longleftrightarrow> line_loads line"
proof (cases "is_assignment line")
  case False
  then show ?thesis by (simp add: load_line_skip line_loads_def)
next
  case True
  then have "CHR ''='' \<in> set line" by (simp add: is_assignment_def)
  then obtain k v where p: "parse_assignment line = Inr (k, v)"
    and s: "strip line = k @ ''='' @ v" and k: "CHR ''='' \<notin> set k"
    by (rule parse_assignment_parts)
  have l: "load_line e line = environ_setitem e k v"
    using True p by (rule load_line_assign)
  have key: "startswith (strip line) ''='' \<longleftrightarrow> k = []"
    using s k by (cases k) auto
  have nul: "CHR 0x00 \<in> set line \<longleftrightarrow> CHR 0x00 \<in> set k \<or> CHR 0x00 \<in> set v"
  proof
    assume "CHR 0x00 \<in> set line"
    then have "CHR 0x00 \<in> set (strip line)" by (rule in_strip) (rule nul_not_space)
    then show "CHR 0x00 \<in> set k \<or> CHR 0x00 \<in> set v" by (auto simp: s)
  next
    assume "CHR 0x00 \<in> set k \<or> CHR 0x00 \<in> set v"
    then have "CHR 0x00 \<in> set (strip line)" by (auto simp: s)
    with set_strip_subset [of line] show "CHR 0x00 \<in> set line" by blast
  qed
  show ?thesis
    using True k by (auto simp: l line_loads_def key nul environ_setitem_def)
qed

lemma load_lines_Inr_iff: "(\<exists>e'. load_lines e ls = Inr e') \<longleftrightarrow> list_all line_loads ls"
proof (induction ls arbitrary: e)
  case Nil
  then show ?case by simp
next
  case (Cons l ls)
  show ?case
  proof (cases "load_line e l")
    case (Inl x)
    with load_line_Inr_iff [of e l] show ?thesis by simp
  next
    case (Inr e1)
    with load_line_Inr_iff [of e l] have "line_loads l" by blast
    with Inr Cons.IH [of e1] show ?thesis by simp
  qed
qed

lemma load_lines_append:
  "load_lines e (xs @ ys) =
     (case load_lines e xs of Inl x \<Rightarrow> Inl x | Inr e1 \<Rightarrow> load_lines e1 ys)"
  by (induction xs arbitrary: e) (simp_all split: sum.splits)

lemma load_line_keeps:
  assumes "load_line e line = Inr e'" and "assigned_key line \<noteq> Some K"
  shows "e' K = e K"
proof (cases "is_assignment line")
  case False
  with assms(1) show ?thesis by (simp add: load_line_skip)
next
  case True
  then have "CHR ''='' \<in> set line" by (simp add: is_assignment_def)
  then obtain k v where p: "parse_assignment line = Inr (k, v)"
    by (rule parse_assignment_parts)
  with True assms(2) have "k \<noteq> K" by (simp add: assigned_key_def assignment_def)
  moreover from True p assms(1) have "environ_setitem e k v = Inr e'"
    by (simp add: load_line_assign)
  ultimately show ?thesis
    by (auto simp: environ_setitem_def split: if_splits)
qed

lemma load_lines_keeps:
  "load_lines e ls = Inr e' \<Longrightarrow> \<forall>l\<in>set ls. assigned_key l \<noteq> Some K \<Longrightarrow> e' K = e K"
proof (induction ls arbitrary: e)
  case Nil
  then show ?case by simp
next
  case (Cons l ls)
  from Cons.prems(1) obtain e1 where e1: "load_line e l = Inr e1" and r: "load_lines e1 ls = Inr e'"
    by (cases "load_line e l") simp_all
  from Cons.IH [OF r] Cons.prems(2) have "e' K = e1 K" by simp
  also from e1 Cons.prems(2) have "e1 K = e K" by (simp add: load_line_keeps)
  finally show ?case .
qed

lemma package_lines_Inr_iff:
  "(\<exists>ls. package_lines w ps = Inr ls) \<longleftrightarrow> list_all (lookup_caught w) ps"
proof (induction ps)
  case Nil
  then show ?case by simp
next
  case (Cons p ps)
  have c: "(\<exists>r. check_python_package w (module_of p) = Inr r) \<longleftrightarrow> lookup_caught w p"
    by (auto simp: check_python_package_def lookup_caught_def split: sum.splits)
  show ?case
  proof (cases "check_python_package w (module_of p)")
    case (Inl x)
    with c show ?thesis by simp
  next
    case (Inr r)
    with c have "lookup_caught w p" by blast
    with Inr Cons.IH show ?thesis
      by (cases r; cases "package_lines w ps") auto
  qed
qed

lemma load_dotenv_Inr_iff: "(\<exists>r. load_dotenv w = Inr r) \<longleftrightarrow> dotenv_loads w"
proof (cases "dotenv w")
  case NoFile
  then show ?thesis by (simp add: load_dotenv_def dotenv_loads_def)
next
  case (ExistsFails x)
  then show ?thesis by (simp add: load_dotenv_def dotenv_loads_def)
next
  case (OpenFails x)
  then show ?thesis by (simp add: load_dotenv_def dotenv_loads_def)
next
  case (ReadFails ls x)
  then show ?thesis
    by (cases "load_lines (environ w) ls") (simp_all add: load_dotenv_def dotenv_loads_def)
next
  case (Lines ls)
  with load_lines_Inr_iff [of "environ w" ls] show ?thesis
    by (cases "load_lines (environ w) ls") (simp_all add: load_dotenv_def dotenv_loads_def)
qed

lemma tools_resolve_iff:
  "tools_resolve w \<longleftrightarrow> (\<forall>t\<in>set (sys_tools @ sec_tools). \<exists>r. check_command w t = Inr r)"
proof -
  have "sys_tools @ sec_tools \<noteq> []" by (simp add: sys_tools_def)
  then obtain t where "t \<in> set (sys_tools @ sec_tools)" by (cases "sys_tools @ sec_tools") auto
  then show ?thesis
    unfolding tools_resolve_def check_command_Inr_iff list_all_iff by blast
qed

lemma main_Inr_iff:
  "(\<exists>r. main w = Inr r) \<longleftrightarrow> tools_resolve w \<and> lookups_caught w \<and> dotenv_loads w"
proof
  assume "\<exists>r. main w = Inr r"
  then obtain out e' where "main w = Inr (out, e')" by auto
  then obtain o1 o2 o3 o4 where "command_lines w sys_tools = Inr o1"
    and "package_lines w py_packages = Inr o2"
    and "security_loop w sec_tools = Inr (o3, missing_tools w)"
    and "load_dotenv w = Inr (o4, e')"
    by (rule main_Inr_D)
  with command_lines_Inr_iff [of w sys_tools] security_loop_Inr_iff [of w sec_tools]
    package_lines_Inr_iff [of w py_packages] load_dotenv_Inr_iff [of w]
  show "tools_resolve w \<and> lookups_caught w \<and> dotenv_loads w"
    unfolding tools_resolve_iff lookups_caught_def by auto
next
  assume a: "tools_resolve w \<and> lookups_caught w \<and> dotenv_loads w"
  with command_lines_Inr_iff [of w sys_tools] obtain o1
    where o1: "command_lines w sys_tools = Inr o1"
    unfolding tools_resolve_iff by auto
  from a package_lines_Inr_iff [of w py_packages] obtain o2
    where o2: "package_lines w py_packages = Inr o2"
    by (auto simp: lookups_caught_def)
  from a security_loop_Inr_iff [of w sec_tools] obtain o3 m
    where o3: "security_loop w sec_tools = Inr (o3, m)"
    unfolding tools_resolve_iff by auto
  from a load_dotenv_Inr_iff [of w] obtain o4 e' where "load_dotenv w = Inr (o4, e')"
    by auto
  from main_Inr_I [OF o1 o2 o3 this] show "\<exists>r. main w = Inr r" by blast
qed

lemma w_demo_completes: "tools_resolve w_demo \<and> lookups_caught w_demo \<and> dotenv_loads w_demo"
  by (simp add: tools_resolve_def lookups_caught_def lookup_caught_def dotenv_loads_def
        line_loads_def py_packages_def module_of_def w_demo_def is_assignment_def strip_def
        lstrip_def rstrip_def isspace_def)



lemma lookup_caught_demo [simp]:
  "lookup_caught (w_demo\<lparr>dotenv := d\<rparr>) = lookup_caught w_demo"
  "lookup_caught (w_demo\<lparr>home := h\<rparr>) = lookup_caught w_demo"
  "lookup_caught (w_demo\<lparr>which := f, dotenv := d\<rparr>) = lookup_caught w_demo"
  by (simp_all add: fun_eq_iff lookup_caught_def)

lemma demo_loops:
  "\<exists>o1 o2 o3 m. command_lines w_demo sys_tools = Inr o1
     \<and> package_lines w_demo py_packages = Inr o2
     \<and> security_loop w_demo sec_tools = Inr (o3, m)"
proof -
  from w_demo_completes obtain r where "main w_demo = Inr r"
    using main_Inr_iff [of w_demo] by blast
  then obtain out e' where "main w_demo = Inr (out, e')" by (cases r) auto
  then show ?thesis by (rule main_Inr_D) blast
qed

lemma loops_dotenv [simp]:
  "command_lines (w\<lparr>dotenv := d\<rparr>) ts = command_lines w ts"
  "security_loop (w\<lparr>dotenv := d\<rparr>) ts = security_loop w ts"
  "package_lines (w\<lparr>dotenv := d\<rparr>) ps = package_lines w ps"
  by (rule command_lines_cong security_loop_cong package_lines_cong; simp)+


subsection \<open>The summary\<close>

lemma distinct_sec_tools: "distinct sec_tools"
  by (simp add: sec_tools_def)

text \<open>
  Claim C6. When \<open>main\<close> completes, its output ends with the summary of the list
  collected by the security tool loop. That list holds exactly the security tools whose
  probe returned \<open>MISSING\<close>, and its length is their number. When no security tool is
  missing the summary is the all-clear message between the two rules; when some are, it
  is the warning with their exact count and the three hints. Two machine states in which
  the security tool probes return the same statuses have the same summary, whatever the
  system tool, package and variable probes return.
\<close>

theorem summary_reflects_security_tools:
  "(main w = Inr (out, e') \<longrightarrow> (\<exists>p. out = p @ summary (missing_tools w)))
   \<and> set (missing_tools w) = {t \<in> set sec_tools. probe_status w t = Some MISSING}
   \<and> length (missing_tools w) = card {t \<in> set sec_tools. probe_status w t = Some MISSING}
   \<and> ((\<forall>t\<in>set sec_tools. probe_status w t \<noteq> Some MISSING) \<longrightarrow>
        summary (missing_tools w) =
          [CHR 0x0A # rule50, GREEN @ ''All checked tools are installed!'' @ RESET,
           rule50 @ [CHR 0x0A]])
   \<and> ((\<exists>t\<in>set sec_tools. probe_status w t = Some MISSING) \<longrightarrow>
        summary (missing_tools w) =
          [CHR 0x0A # rule50,
           YELLOW @ ''Warning: '' @ str_nat (length (missing_tools w))
             @ '' tools are missing or not in PATH.'' @ RESET,
           ''Run usage tests to see if these are critical for your workflow.'',
           ''To install missing tools, run: ./install_tools.sh'',
           ''If tools show as WARNING (Found at...), run: source ~/.bashrc'',
           rule50 @ [CHR 0x0A]])
   \<and> (\<forall>w'. map (probe_status w') sec_tools = map (probe_status w) sec_tools
          \<longrightarrow> summary (missing_tools w') = summary (missing_tools w))"
proof (intro conjI impI allI)
  assume "main w = Inr (out, e')"
  then obtain o1 o2 o3 o4 where "out = report_head o1 o2 o3 o4
      @ map (env_var_line e') api_keys @ summary (missing_tools w)"
    by (rule main_Inr_D)
  then have "out = (report_head o1 o2 o3 o4 @ map (env_var_line e') api_keys)
      @ summary (missing_tools w)"
    by simp
  then show "\<exists>p. out = p @ summary (missing_tools w)" ..
next
  show s: "set (missing_tools w) = {t \<in> set sec_tools. probe_status w t = Some MISSING}"
    by (simp add: missing_tools_def)
  have "distinct (missing_tools w)"
    using distinct_sec_tools by (simp add: missing_tools_def)
  then have "length (missing_tools w) = card (set (missing_tools w))"
    by (simp add: distinct_card)
  with s show "length (missing_tools w)
      = card {t \<in> set sec_tools. probe_status w t = Some MISSING}"
    by simp
next
  assume "\<forall>t\<in>set sec_tools. probe_status w t \<noteq> Some MISSING"
  then have "missing_tools w = []"
    by (simp add: missing_tools_def filter_empty_conv)
  then show "summary (missing_tools w) =
          [CHR 0x0A # rule50, GREEN @ ''All checked tools are installed!'' @ RESET,
           rule50 @ [CHR 0x0A]]"
    by (simp add: summary_def)
next
  assume "\<exists>t\<in>set sec_tools. probe_status w t = Some MISSING"
  then have "missing_tools w \<noteq> []"
    by (simp add: missing_tools_def filter_empty_conv)
  then show "summary (missing_tools w) =
          [CHR 0x0A # rule50,
           YELLOW @ ''Warning: '' @ str_nat (length (missing_tools w))
             @ '' tools are missing or not in PATH.'' @ RESET,
           ''Run usage tests to see if these are critical for your workflow.'',
           ''To install missing tools, run: ./install_tools.sh'',
           ''If tools show as WARNING (Found at...), run: source ~/.bashrc'',
           rule50 @ [CHR 0x0A]]"
    by (simp add: summary_def)
next
  fix w'
  assume "map (probe_status w') sec_tools = map (probe_status w) sec_tools"
  then have "\<forall>t\<in>set sec_tools. probe_status w' t = probe_status w t"
    by (simp add: map_eq_conv)
  then have "missing_tools w' = missing_tools w"
    unfolding missing_tools_def by (intro filter_cong) simp_all
  then show "summary (missing_tools w') = summary (missing_tools w)" by simp
qed

lemma w_all_present_completes:
  "tools_resolve w_all_present \<and> lookups_caught w_all_present \<and> dotenv_loads w_all_present"
proof -
  have "home w_all_present \<noteq> None"
    by (simp add: w_all_present_def w_demo_def)
  then have "tools_resolve w_all_present"
    by (simp add: tools_resolve_def)
  moreover have "lookups_caught w_all_present \<and> dotenv_loads w_all_present"
    using w_demo_completes
    by (simp add: lookups_caught_def w_all_present_def dotenv_loads_def)
  ultimately show ?thesis by simp
qed

lemma w_demo_missing_count: "length (missing_tools w_demo) = 23"
  by (simp add: missing_tools_def probe_status_def sec_tools_def check_command_def
        check_common_dirs_def common_paths_def w_demo_def endswith_def)

lemma str_nat_23: "str_nat 23 = ''23''"
  by code_simp

lemma w_all_present_status: "probe_status w_all_present t = Some OK"
  by (simp add: probe_status_def check_command_def w_all_present_def)

theorem summary_reflects_security_tools_witness:
  "(\<exists>p e'. main w_all_present =
      Inr (p @ [CHR 0x0A # rule50, GREEN @ ''All checked tools are installed!'' @ RESET,
                rule50 @ [CHR 0x0A]], e'))
   \<and> (\<exists>p e'. main w_demo =
      Inr (p @ [CHR 0x0A # rule50,
                YELLOW @ ''Warning: 23 tools are missing or not in PATH.'' @ RESET,
                ''Run usage tests to see if these are critical for your workflow.'',
                ''To install missing tools, run: ./install_tools.sh'',
                ''If tools show as WARNING (Found at...), run: source ~/.bashrc'',
                rule50 @ [CHR 0x0A]], e'))"
proof
  from w_all_present_completes main_Inr_iff [of w_all_present]
  obtain out e' where m: "main w_all_present = Inr (out, e')" by auto
  have a: "\<forall>t\<in>set sec_tools. probe_status w_all_present t \<noteq> Some MISSING"
    by (simp add: w_all_present_status)
  from summary_reflects_security_tools [of w_all_present out e'] m a
  have "\<exists>p. out = p @ summary (missing_tools w_all_present)"
    and "summary (missing_tools w_all_present) = [CHR 0x0A # rule50,
      GREEN @ ''All checked tools are installed!'' @ RESET, rule50 @ [CHR 0x0A]]"
    by blast+
  then obtain p where "out = p @ [CHR 0x0A # rule50,
      GREEN @ ''All checked tools are installed!'' @ RESET, rule50 @ [CHR 0x0A]]"
    by auto
  with m show "\<exists>p e'. main w_all_present =
      Inr (p @ [CHR 0x0A # rule50, GREEN @ ''All checked tools are installed!'' @ RESET,
                rule50 @ [CHR 0x0A]], e')"
    by blast
next
  from w_demo_completes main_Inr_iff [of w_demo]
  obtain out e' where m: "main w_demo = Inr (out, e')" by auto
  have "missing_tools w_demo \<noteq> []"
    using w_demo_missing_count by auto
  then have b: "\<exists>t\<in>set sec_tools. probe_status w_demo t = Some MISSING"
    by (simp add: missing_tools_def filter_empty_conv)
  from summary_reflects_security_tools [of w_demo out e'] m b
  have "\<exists>p. out = p @ summary (missing_tools w_demo)"
    and "summary (missing_tools w_demo) = [CHR 0x0A # rule50,
      YELLOW @ ''Warning: '' @ str_nat (length (missing_tools w_demo))
        @ '' tools are missing or not in PATH.'' @ RESET,
      ''Run usage tests to see if these are critical for your workflow.'',
      ''To install missing tools, run: ./install_tools.sh'',
      ''If tools show as WARNING (Found at...), run: source ~/.bashrc'',
      rule50 @ [CHR 0x0A]]"
    by blast+
  then obtain p where "out = p @ [CHR 0x0A # rule50,
      YELLOW @ ''Warning: '' @ str_nat (length (missing_tools w_demo))
        @ '' tools are missing or not in PATH.'' @ RESET,
      ''Run usage tests to see if these are critical for your workflow.'',
      ''To install missing tools, run: ./install_tools.sh'',
      ''If tools show as WARNING (Found at...), run: source ~/.bashrc'',
      rule50 @ [CHR 0x0A]]"
    by auto
  then have "out = p @ [CHR 0x0A # rule50,
      YELLOW @ ''Warning: 23 tools are missing or not in PATH.'' @ RESET,
      ''Run usage tests to see if these are critical for your workflow.'',
      ''To install missing tools, run: ./install_tools.sh'',
      ''If tools show as WARNING (Found at...), run: source ~/.bashrc'',
      rule50 @ [CHR 0x0A]]"
    by (simp add: w_demo_missing_count str_nat_23)
  with m show "\<exists>p e'. main w_demo =
      Inr (p @ [CHR 0x0A # rule50,
                YELLOW @ ''Warning: 23 tools are missing or not in PATH.'' @ RESET,
                ''Run usage tests to see if these are critical for your workflow.'',
                ''To install missing tools, run: ./install_tools.sh'',
                ''If tools show as WARNING (Found at...), run: source ~/.bashrc'',
                rule50 @ [CHR 0x0A]], e')"
    by blast
qed

subsection \<open>The settings file and the variable probes\<close>

lemma load_line_assignment:
  assumes "load_line e line = Inr e'"
  shows "e' = (case assignment line of None \<Rightarrow> e | Some (k, v) \<Rightarrow> e(k \<mapsto> v))"
proof (cases "is_assignment line")
  case False
  with assms show ?thesis by (simp add: load_line_skip assignment_def)
next
  case True
  then have "CHR ''='' \<in> set line" by (simp add: is_assignment_def)
  then obtain k v where p: "parse_assignment line = Inr (k, v)"
    by (rule parse_assignment_parts)
  with True assms have "environ_setitem e k v = Inr e'"
    by (simp add: load_line_assign)
  then have "e' = e(k \<mapsto> v)"
    by (auto simp: environ_setitem_def split: if_splits)
  with True p show ?thesis by (simp add: assignment_def)
qed

lemma map_add_single: "e(k \<mapsto> v) ++ m = e ++ ([k \<mapsto> v] ++ m)"
  by (rule ext) (simp add: map_add_def split: option.splits)

lemma load_lines_file_assignments:
  "load_lines e ls = Inr e' \<Longrightarrow> e' = e ++ file_assignments ls"
proof (induction ls arbitrary: e)
  case Nil
  then show ?case by simp
next
  case (Cons l ls)
  from Cons.prems obtain e1 where e1: "load_line e l = Inr e1" and r: "load_lines e1 ls = Inr e'"
    by (cases "load_line e l") simp_all
  from Cons.IH [OF r] have i: "e' = e1 ++ file_assignments ls" .
  show ?case
  proof (cases "assignment l")
    case None
    with load_line_assignment [OF e1] i show ?thesis by simp
  next
    case (Some kv)
    obtain k v where kv: "kv = (k, v)" by (cases kv)
    with Some load_line_assignment [OF e1] have "e1 = e(k \<mapsto> v)" by simp
    with i have "e' = e(k \<mapsto> v) ++ file_assignments ls" by simp
    also have "\<dots> = e ++ ([k \<mapsto> v] ++ file_assignments ls)"
      by (rule map_add_single)
    finally show ?thesis using Some kv by simp
  qed
qed

lemma load_line_api_key_plain:
  "load_line e ''ANTHROPIC_API_KEY=sk-real123'' = Inr (e(''ANTHROPIC_API_KEY'' \<mapsto> ''sk-real123''))"
  by (simp add: load_line_def is_assignment_def parse_assignment_def strip_def lstrip_def
        rstrip_def split1_def isspace_def environ_setitem_def)

lemma load_line_api_key_newline:
  "load_line e (''ANTHROPIC_API_KEY=sk-real123'' @ [CHR 0x0A])
     = Inr (e(''ANTHROPIC_API_KEY'' \<mapsto> ''sk-real123''))"
  by (simp add: load_line_def is_assignment_def parse_assignment_def strip_def lstrip_def
        rstrip_def split1_def isspace_def environ_setitem_def)

lemma check_env_var_api_key:
  "e ''ANTHROPIC_API_KEY'' = Some ''sk-real123''
   \<Longrightarrow> check_env_var e ''ANTHROPIC_API_KEY'' = (OK, ''Configured'')"
  by (simp add: check_env_var_def placeholders_def strip_def lstrip_def rstrip_def isspace_def)

lemma load_line_api_key:
  "line = ''ANTHROPIC_API_KEY=sk-real123'' \<or> line = ''ANTHROPIC_API_KEY=sk-real123'' @ [CHR 0x0A]
   \<Longrightarrow> load_line e line = Inr (e(''ANTHROPIC_API_KEY'' \<mapsto> ''sk-real123''))"
  using load_line_api_key_plain [of e] load_line_api_key_newline [of e] by blast

text \<open>
  Claim C7, amended. In a run that completes, the settings file is absent or was read to
  its end, and the four variable probes are printed after that step, from the environment
  that it leaves. That environment is the process environment overridden by the mapping
  of the file: every key that the file assigns holds the value of the last line that
  assigns it, whatever it held before, and every other key holds its former value. When
  the file holds the line \<open>ANTHROPIC_API_KEY=sk-real123\<close> and no later line assigns that
  key, the key holds \<open>sk-real123\<close> and its probe prints \<open>OK\<close>, "Configured".
\<close>

theorem settings_file_overrides_environment:
  assumes "main w = Inr (out, e')"
  shows "(\<exists>p. out = p @ map (env_var_line e') api_keys @ summary (missing_tools w))
       \<and> (dotenv w = NoFile \<or> (\<exists>ls. dotenv w = Lines ls))
       \<and> (dotenv w = NoFile \<longrightarrow> e' = environ w)
       \<and> (\<forall>ls. dotenv w = Lines ls \<longrightarrow> e' = environ w ++ file_assignments ls)
       \<and> (\<forall>pre line post.
             dotenv w = Lines (pre @ line # post)
             \<and> (line = ''ANTHROPIC_API_KEY=sk-real123''
                  \<or> line = ''ANTHROPIC_API_KEY=sk-real123'' @ [CHR 0x0A])
             \<and> (\<forall>l\<in>set post. assigned_key l \<noteq> Some ''ANTHROPIC_API_KEY'')
           \<longrightarrow> e' ''ANTHROPIC_API_KEY'' = Some ''sk-real123''
               \<and> check_env_var e' ''ANTHROPIC_API_KEY'' = (OK, ''Configured'')
               \<and> print_status ''ANTHROPIC_API_KEY'' OK ''Configured'' \<in> set out)"
proof -
  let ?K = "''ANTHROPIC_API_KEY''"
  from assms obtain o1 o2 o3 o4 where ld: "load_dotenv w = Inr (o4, e')"
    and out: "out = report_head o1 o2 o3 o4
                @ map (env_var_line e') api_keys @ summary (missing_tools w)"
    by (rule main_Inr_D)
  from out have "out = (report_head o1 o2 o3 o4)
      @ map (env_var_line e') api_keys @ summary (missing_tools w)"
    by simp
  then have c1: "\<exists>p. out = p @ map (env_var_line e') api_keys @ summary (missing_tools w)" ..
  have c2: "dotenv w = NoFile \<or> (\<exists>ls. dotenv w = Lines ls)"
    using ld by (cases "dotenv w") (auto simp: load_dotenv_def split: sum.splits)
  have c3: "dotenv w = NoFile \<longrightarrow> e' = environ w"
  proof
    assume "dotenv w = NoFile"
    with ld show "e' = environ w" by (simp add: load_dotenv_def)
  qed
  have ll: "load_lines (environ w) ls = Inr e'" if "dotenv w = Lines ls" for ls
    using ld that by (simp add: load_dotenv_def split: sum.splits)
  have c4: "\<forall>ls. dotenv w = Lines ls \<longrightarrow> e' = environ w ++ file_assignments ls"
  proof (intro allI impI)
    fix ls assume "dotenv w = Lines ls"
    from ll [OF this] show "e' = environ w ++ file_assignments ls"
      by (rule load_lines_file_assignments)
  qed
  have c5': "e' ?K = Some ''sk-real123'' \<and> check_env_var e' ?K = (OK, ''Configured'')
      \<and> print_status ?K OK ''Configured'' \<in> set out"
    if d: "dotenv w = Lines (pre @ line # post)"
      and l: "line = ''ANTHROPIC_API_KEY=sk-real123''
              \<or> line = ''ANTHROPIC_API_KEY=sk-real123'' @ [CHR 0x0A]"
      and p: "\<forall>l\<in>set post. assigned_key l \<noteq> Some ?K"
    for pre line post
  proof -
    from ll [OF d] obtain e1 where e1: "load_lines (environ w) pre = Inr e1"
      and r: "load_lines e1 (line # post) = Inr e'"
      by (cases "load_lines (environ w) pre") (simp_all add: load_lines_append)
    from r load_line_api_key [OF l, of e1]
    have post: "load_lines (e1(?K \<mapsto> ''sk-real123'')) post = Inr e'"
      by simp
    from load_lines_keeps [OF post p] have k: "e' ?K = Some ''sk-real123''"
      by simp
    then have c: "check_env_var e' ?K = (OK, ''Configured'')"
      by (rule check_env_var_api_key)
    then have "env_var_line e' ?K = print_status ?K OK ''Configured''"
      by (simp add: env_var_line_def)
    moreover have "?K \<in> set api_keys"
      by (simp add: api_keys_def)
    ultimately have "print_status ?K OK ''Configured'' \<in> set (map (env_var_line e') api_keys)"
      by (simp only: set_map) (rule image_eqI [where x = "?K"], simp_all only: simp_thms)
    then have "print_status ?K OK ''Configured'' \<in> set out"
      by (simp only: out set_append Un_iff simp_thms)
    with k c show ?thesis by (intro conjI)
  qed
  have c5: "\<forall>pre line post.
             dotenv w = Lines (pre @ line # post)
             \<and> (line = ''ANTHROPIC_API_KEY=sk-real123''
                  \<or> line = ''ANTHROPIC_API_KEY=sk-real123'' @ [CHR 0x0A])
             \<and> (\<forall>l\<in>set post. assigned_key l \<noteq> Some ''ANTHROPIC_API_KEY'')
           \<longrightarrow> e' ''ANTHROPIC_API_KEY'' = Some ''sk-real123''
               \<and> check_env_var e' ''ANTHROPIC_API_KEY'' = (OK, ''Configured'')
               \<and> print_status ''ANTHROPIC_API_KEY'' OK ''Configured'' \<in> set out"
    by (intro allI impI, elim conjE) (rule c5'; assumption)
  from c1 c2 c3 c4 c5 show ?thesis by (intro conjI)
qed

theorem settings_file_overrides_environment_witness:
  "check_env_var (environ w_demo) ''ANTHROPIC_API_KEY'' = (WARNING, ''Set to placeholder value'')
   \<and> (\<exists>out e'. main w_demo = Inr (out, e')
         \<and> e' = environ w_demo
                  ++ file_assignments [''ANTHROPIC_API_KEY=sk-real123'' @ [CHR 0x0A]]
         \<and> e' ''ANTHROPIC_API_KEY'' = Some ''sk-real123''
         \<and> check_env_var e' ''ANTHROPIC_API_KEY'' = (OK, ''Configured'')
         \<and> print_status ''ANTHROPIC_API_KEY'' OK ''Configured'' \<in> set out)"
proof -
  from w_demo_completes main_Inr_iff [of w_demo]
  obtain out e' where m: "main w_demo = Inr (out, e')" by auto
  have d0: "dotenv w_demo = Lines [''ANTHROPIC_API_KEY=sk-real123'' @ [CHR 0x0A]]"
    by (simp add: w_demo_def)
  have d: "dotenv w_demo = Lines ([] @ (''ANTHROPIC_API_KEY=sk-real123'' @ [CHR 0x0A]) # [])"
    by (simp add: w_demo_def)
  have l: "''ANTHROPIC_API_KEY=sk-real123'' @ [CHR 0x0A] = ''ANTHROPIC_API_KEY=sk-real123''
         \<or> ''ANTHROPIC_API_KEY=sk-real123'' @ [CHR 0x0A]
            = ''ANTHROPIC_API_KEY=sk-real123'' @ [CHR 0x0A]"
    by simp
  have p: "\<forall>l\<in>set []. assigned_key l \<noteq> Some ''ANTHROPIC_API_KEY''"
    by simp
  have b: "check_env_var (environ w_demo) ''ANTHROPIC_API_KEY''
             = (WARNING, ''Set to placeholder value'')"
    by (simp add: w_demo_def check_env_var_def placeholders_def strip_def lstrip_def
          rstrip_def isspace_def)
  note t = settings_file_overrides_environment [OF m]
  from t have t4: "\<forall>ls. dotenv w_demo = Lines ls \<longrightarrow> e' = environ w_demo ++ file_assignments ls"
    by (elim conjE)
  from t have t5: "\<forall>pre line post.
             dotenv w_demo = Lines (pre @ line # post)
             \<and> (line = ''ANTHROPIC_API_KEY=sk-real123''
                  \<or> line = ''ANTHROPIC_API_KEY=sk-real123'' @ [CHR 0x0A])
             \<and> (\<forall>l\<in>set post. assigned_key l \<noteq> Some ''ANTHROPIC_API_KEY'')
           \<longrightarrow> e' ''ANTHROPIC_API_KEY'' = Some ''sk-real123''
               \<and> check_env_var e' ''ANTHROPIC_API_KEY'' = (OK, ''Configured'')
               \<and> print_status ''ANTHROPIC_API_KEY'' OK ''Configured'' \<in> set out"
    by (elim conjE)
  from t4 d0 have r1: "e' = environ w_demo
      ++ file_assignments [''ANTHROPIC_API_KEY=sk-real123'' @ [CHR 0x0A]]"
    by (elim allE impE) assumption+
  from t5 [rule_format, OF conjI [OF d conjI [OF l p]]]
  have r2: "e' ''ANTHROPIC_API_KEY'' = Some ''sk-real123''
      \<and> check_env_var e' ''ANTHROPIC_API_KEY'' = (OK, ''Configured'')
      \<and> print_status ''ANTHROPIC_API_KEY'' OK ''Configured'' \<in> set out" .
  from r2 have r2a: "e' ''ANTHROPIC_API_KEY'' = Some ''sk-real123''"
    by (elim conjE)
  from r2 have r2b: "check_env_var e' ''ANTHROPIC_API_KEY'' = (OK, ''Configured'')"
    by (elim conjE)
  from r2 have r2c: "print_status ''ANTHROPIC_API_KEY'' OK ''Configured'' \<in> set out"
    by (elim conjE)
  show ?thesis
    by (intro conjI exI [of _ out] exI [of _ e']) (rule b m r1 r2a r2b r2c)+
qed

text \<open>
  Claim C7 as stated fails for a settings file that holds the line and, after it, the
  line \<open>ANTHROPIC_API_KEY=\<close>: the run completes, the later line overwrites the value with
  the empty string, and the probe prints \<open>WARNING\<close>. It also fails for a file that holds
  the line after the line \<open>=value\<close>: the run ends in that line, before any variable is
  probed.
\<close>

theorem settings_file_reassigned_counterexample:
  "dotenv w_reassign = Lines [''ANTHROPIC_API_KEY=sk-real123'' @ [CHR 0x0A],
                             ''ANTHROPIC_API_KEY='' @ [CHR 0x0A]]
   \<and> (\<exists>out e'. main w_reassign = Inr (out, e')
         \<and> check_env_var e' ''ANTHROPIC_API_KEY''
             = (WARNING, ''Not set (some features may fail)'')
         \<and> print_status ''ANTHROPIC_API_KEY'' WARNING ''Not set (some features may fail)''
             \<in> set out)
   \<and> dotenv w_bad_line_first = Lines [''=value'' @ [CHR 0x0A],
                                     ''ANTHROPIC_API_KEY=sk-real123'' @ [CHR 0x0A]]
   \<and> main w_bad_line_first = Inl OSError"
proof -
  let ?K = "''ANTHROPIC_API_KEY''"
  from demo_loops obtain o1 o2 o3 m where o1: "command_lines w_demo sys_tools = Inr o1"
    and o2: "package_lines w_demo py_packages = Inr o2"
    and o3: "security_loop w_demo sec_tools = Inr (o3, m)"
    by blast
  have ld: "load_dotenv w_reassign
      = Inr ([print_status ''.env file'' OK ''Found''], (environ w_demo)(?K \<mapsto> []))"
    by (simp add: w_reassign_def load_dotenv_def load_line_def is_assignment_def
          parse_assignment_def strip_def lstrip_def rstrip_def split1_def isspace_def
          environ_setitem_def)
  have c: "check_env_var ((environ w_demo)(?K \<mapsto> [])) ?K
             = (WARNING, ''Not set (some features may fail)'')"
    by (simp add: check_env_var_def)
  have o1': "command_lines w_reassign sys_tools = Inr o1"
    and o2': "package_lines w_reassign py_packages = Inr o2"
    and o3': "security_loop w_reassign sec_tools = Inr (o3, m)"
    using o1 o2 o3 by (simp_all add: w_reassign_def)
  from main_Inr_I [OF o1' o2' o3' ld]
  have mr: "main w_reassign = Inr (report_head o1 o2 o3 [print_status ''.env file'' OK ''Found'']
      @ map (env_var_line ((environ w_demo)(?K \<mapsto> []))) api_keys @ summary m,
      (environ w_demo)(?K \<mapsto> []))" .
  have "env_var_line ((environ w_demo)(?K \<mapsto> [])) ?K
      = print_status ?K WARNING ''Not set (some features may fail)''"
    using c by (simp add: env_var_line_def)
  moreover have "?K \<in> set api_keys"
    by (simp add: api_keys_def)
  ultimately have "print_status ?K WARNING ''Not set (some features may fail)''
      \<in> set (map (env_var_line ((environ w_demo)(?K \<mapsto> []))) api_keys)"
    by (simp only: set_map) (rule image_eqI [where x = "?K"], simp_all only: simp_thms)
  then have "print_status ?K WARNING ''Not set (some features may fail)''
      \<in> set (report_head o1 o2 o3 [print_status ''.env file'' OK ''Found'']
      @ map (env_var_line ((environ w_demo)(?K \<mapsto> []))) api_keys @ summary m)"
    by (simp only: set_append Un_iff simp_thms)
  then have a: "\<exists>out e'. main w_reassign = Inr (out, e')
         \<and> check_env_var e' ?K = (WARNING, ''Not set (some features may fail)'')
         \<and> print_status ?K WARNING ''Not set (some features may fail)'' \<in> set out"
    using mr c by blast
  have "load_dotenv w_bad_line_first = Inl OSError"
    by (simp add: w_bad_line_first_def load_dotenv_def load_line_def is_assignment_def
          parse_assignment_def strip_def lstrip_def rstrip_def split1_def isspace_def
          environ_setitem_def)
  with o1 o2 o3 have b: "main w_bad_line_first = Inl OSError"
    by (intro main_Inl_I(4) [where ?o1.0 = o1 and ?o2.0 = o2 and r = "(o3, m)"])
      (simp_all add: w_bad_line_first_def)
  have d1: "dotenv w_reassign = Lines [''ANTHROPIC_API_KEY=sk-real123'' @ [CHR 0x0A],
                             ''ANTHROPIC_API_KEY='' @ [CHR 0x0A]]"
    by (simp add: w_reassign_def)
  have d2: "dotenv w_bad_line_first = Lines [''=value'' @ [CHR 0x0A],
                                     ''ANTHROPIC_API_KEY=sk-real123'' @ [CHR 0x0A]]"
    by (simp add: w_bad_line_first_def)
  show ?thesis
    by (intro conjI) (rule a b d1 d2)+
qed

end
